theory Spec2Isabelle
  imports Complex_Main "HOL-Library.Multiset" "HOL-Library.Sublist"
begin

section \<open>Strings of the runtime\<close>

text \<open>
  A JavaScript string is modelled as a \<^typ>\<open>string\<close>: each \<^typ>\<open>char\<close> stands for
  one UTF-16 code unit below 256 (ASCII and Latin-1). The functions below are the
  runtime's \<^verbatim>\<open>String.prototype\<close> methods that \<^verbatim>\<open>App.js\<close> calls, on that alphabet.
\<close>

definition is_white_space :: "char \<Rightarrow> bool" where
  \<comment> \<open>WhiteSpace and LineTerminator code points below 256: TAB, LF, VT, FF, CR, SP, NBSP.\<close>
  "is_white_space c = (of_char c \<in> set [9, 10, 11, 12, 13, 32, 160 :: nat])"

definition trim :: "string \<Rightarrow> string" where
  "trim s = rev (dropWhile is_white_space (rev (dropWhile is_white_space s)))"

definition lower_char :: "char \<Rightarrow> char" where
  \<comment> \<open>A-Z, and the Latin-1 capitals U+00C0..U+00DE without the multiplication sign U+00D7.\<close>
  "lower_char c =
     (let n = (of_char c :: nat)
      in if (65 \<le> n \<and> n \<le> 90) \<or> (192 \<le> n \<and> n \<le> 222 \<and> n \<noteq> 215)
         then char_of (n + 32) else c)"

definition toLowerCase :: "string \<Rightarrow> string" where
  "toLowerCase s = map lower_char s"

fun includes_str :: "string \<Rightarrow> string \<Rightarrow> bool" where
  \<comment> \<open>\<^verbatim>\<open>t.includes(q)\<close>: \<open>q\<close> occurs in \<open>t\<close> as a run of consecutive characters.\<close>
  "includes_str [] q = (q = [])"
| "includes_str (c # cs) q = (prefix q (c # cs) \<or> includes_str cs q)"

definition or_else :: "string \<Rightarrow> string \<Rightarrow> string" where
  \<comment> \<open>\<^verbatim>\<open>a || b\<close> on strings: the empty string is the only falsy one.\<close>
  "or_else a b = (if a = [] then b else a)"

definition slice :: "nat \<Rightarrow> nat \<Rightarrow> string \<Rightarrow> string" where
  \<comment> \<open>\<^verbatim>\<open>s.slice(a, b)\<close> for \<open>0 \<le> a \<le> b\<close>; both ends are clipped to the length.\<close>
  "slice a b s = take (b - a) (drop a s)"

definition digit_char :: "nat \<Rightarrow> char" where
  "digit_char d = char_of (48 + d)"

function show_nat :: "nat \<Rightarrow> string" where
  "show_nat n = (if n < 10 then [digit_char n] else show_nat (n div 10) @ [digit_char (n mod 10)])"
  by pat_completeness auto

termination
  by (relation "measure (\<lambda>n. n)") auto

definition show_int :: "int \<Rightarrow> string" where
  \<comment> \<open>Number to string, as a template literal and \<^verbatim>\<open>JSON.stringify\<close> print an integer
      (of magnitude below \<open>10^21\<close>, where the runtime switches to exponent notation).\<close>
  "show_int i = (if i < 0 then CHR ''-'' # show_nat (nat (- i)) else show_nat (nat i))"

section \<open>Notes\<close>

text \<open>The \<^verbatim>\<open>Note\<close> typedef of \<^verbatim>\<open>App.js\<close>; the field \<^verbatim>\<open>id\<close> is \<open>note_id\<close> here.\<close>

record Note =
  note_id :: string
  title :: string
  content :: string
  updatedAt :: int

definition generateId :: "int \<Rightarrow> string \<Rightarrow> string" where
  \<comment> \<open>\<open>now\<close> is the value of \<^verbatim>\<open>Date.now()\<close>, \<open>r36\<close> that of \<^verbatim>\<open>Math.random().toString(36)\<close>.\<close>
  "generateId now r36 = show_int now @ ''-'' @ slice 2 8 r36"

section \<open>The derived list: sorting and searching\<close>

text \<open>
  \<^verbatim>\<open>Array.prototype.sort\<close> with a comparator is a stable sort: \<open>a\<close> comes before \<open>b\<close>
  when \<open>cmp a b < 0\<close>, and elements that compare equal keep their order.
\<close>

fun insert_by :: "('a \<Rightarrow> 'a \<Rightarrow> int) \<Rightarrow> 'a \<Rightarrow> 'a list \<Rightarrow> 'a list" where
  "insert_by cmp x [] = [x]"
| "insert_by cmp x (y # ys) = (if cmp x y \<le> 0 then x # y # ys else y # insert_by cmp x ys)"

fun sort_by :: "('a \<Rightarrow> 'a \<Rightarrow> int) \<Rightarrow> 'a list \<Rightarrow> 'a list" where
  "sort_by cmp [] = []"
| "sort_by cmp (x # xs) = insert_by cmp x (sort_by cmp xs)"

definition newest_first :: "Note \<Rightarrow> Note \<Rightarrow> int" where
  \<comment> \<open>The comparator \<^verbatim>\<open>(a, b) => b.updatedAt - a.updatedAt\<close>.\<close>
  "newest_first a b = updatedAt b - updatedAt a"

definition filteredNotes :: "Note list \<Rightarrow> string \<Rightarrow> Note list" where
  "filteredNotes ns qry =
     (let q = toLowerCase (trim qry);
          sorted = sort_by newest_first ns
      in if q = [] then sorted
         else filter (\<lambda>n. includes_str (toLowerCase (or_else (title n) [])) q
                        \<or> includes_str (toLowerCase (or_else (content n) [])) q) sorted)"

section \<open>The state of the App component and its handlers\<close>

record app =
  "notes" :: "Note list"
  selectedId :: "string option"
  query :: string

definition selectedNote :: "app \<Rightarrow> Note option" where
  "selectedNote st =
     (case selectedId st of None \<Rightarrow> None
      | Some sid \<Rightarrow> find (\<lambda>n. note_id n = sid) (notes st))"

definition handleSelect :: "string \<Rightarrow> app \<Rightarrow> app" where
  "handleSelect i st = st\<lparr>selectedId := Some i\<rparr>"

definition handleNew :: "int \<Rightarrow> string \<Rightarrow> int \<Rightarrow> app \<Rightarrow> app" where
  \<comment> \<open>\<open>t1\<close> is the clock read inside \<^verbatim>\<open>generateId()\<close>, \<open>t2\<close> the one read for \<^verbatim>\<open>updatedAt\<close>.\<close>
  "handleNew t1 r36 t2 st =
     (let newNote = \<lparr>note_id = generateId t1 r36, title = [], content = [], updatedAt = t2\<rparr>
      in st\<lparr>notes := newNote # notes st, selectedId := Some (note_id newNote)\<rparr>)"

definition handleDelete :: "app \<Rightarrow> app" where
  \<comment> \<open>\<^verbatim>\<open>!selectedId\<close> holds for \<^verbatim>\<open>null\<close> and for the empty string;
      \<^verbatim>\<open>remaining[0]?.id || null\<close> is \<^verbatim>\<open>null\<close> when nothing remains or that id is empty.\<close>
  "handleDelete st =
     (case selectedId st of
        None \<Rightarrow> st
      | Some sid \<Rightarrow>
          if sid = [] then st
          else
            let remaining = filter (\<lambda>n. note_id n \<noteq> sid) (filteredNotes (notes st) (query st))
            in st\<lparr>notes := filter (\<lambda>n. note_id n \<noteq> sid) (notes st),
                  selectedId := (case remaining of [] \<Rightarrow> None
                                 | n # _ \<Rightarrow> if note_id n = [] then None else Some (note_id n))\<rparr>)"

definition handleChange :: "Note \<Rightarrow> app \<Rightarrow> app" where
  "handleChange updated st =
     st\<lparr>notes := map (\<lambda>n. if note_id n = note_id updated then updated else n) (notes st)\<rparr>"

definition handleTitle :: "string \<Rightarrow> int \<Rightarrow> app \<Rightarrow> app" where
  \<comment> \<open>The editor is rendered only for a selected note; \<open>now\<close> is \<^verbatim>\<open>Date.now()\<close>.\<close>
  "handleTitle v now st =
     (case selectedNote st of None \<Rightarrow> st
      | Some n \<Rightarrow> handleChange (n\<lparr>title := v, updatedAt := now\<rparr>) st)"

definition handleContent :: "string \<Rightarrow> int \<Rightarrow> app \<Rightarrow> app" where
  "handleContent v now st =
     (case selectedNote st of None \<Rightarrow> st
      | Some n \<Rightarrow> handleChange (n\<lparr>content := v, updatedAt := now\<rparr>) st)"

definition setQuery :: "string \<Rightarrow> app \<Rightarrow> app" where
  "setQuery q st = st\<lparr>query := q\<rparr>"

section \<open>The runtime's JSON.parse\<close>

text \<open>
  \<^verbatim>\<open>JSON.parse\<close> is modelled by a lexer and a recursive-descent parser for the JSON
  grammar; \<open>None\<close> is its \<^verbatim>\<open>SyntaxError\<close>. The text is a \<^typ>\<open>string\<close>. A string
  value is the list of its UTF-16 code units, numbers below 65536: a Unicode escape
  (backslash, \<open>u\<close>, four hexadecimal digits) can name any of them, also a lone surrogate.
  One thing is idealised: a number keeps the exact value of its literal, where the runtime
  rounds to the nearest double; the two agree on the integers that timestamps are. An
  object is the list of its properties in the order of their first occurrence, a repeated
  key keeping its last value (the runtime lists integer-like keys first; nothing below
  depends on the order).
\<close>

type_synonym jsstring = "nat list"

definition js_string :: "string \<Rightarrow> jsstring" where
  \<comment> \<open>The code units of a string of the alphabet below 256.\<close>
  "js_string s = map of_char s"

datatype jsval =
    JNull
  | JBool bool
  | JNum rat
  | JStr jsstring
  | JArr "jsval list"
  | JObj "(jsstring \<times> jsval) list"

datatype token =
    TLBrace | TRBrace | TLBracket | TRBracket | TColon | TComma
  | TString jsstring | TNumber rat | TTrue | TFalse | TNull

definition is_json_ws :: "char \<Rightarrow> bool" where
  "is_json_ws c = (of_char c \<in> set [32, 9, 10, 13 :: nat])"

definition is_digit :: "char \<Rightarrow> bool" where
  "is_digit c = (48 \<le> (of_char c :: nat) \<and> (of_char c :: nat) \<le> 57)"

definition digit_val :: "char \<Rightarrow> nat" where
  "digit_val c = of_char c - 48"

definition nat_of_digits :: "string \<Rightarrow> nat" where
  "nat_of_digits ds = foldl (\<lambda>a c. 10 * a + digit_val c) 0 ds"

definition hex_val :: "char \<Rightarrow> nat option" where
  "hex_val c =
     (let n = (of_char c :: nat)
      in if 48 \<le> n \<and> n \<le> 57 then Some (n - 48)
         else if 97 \<le> n \<and> n \<le> 102 then Some (n - 87)
         else if 65 \<le> n \<and> n \<le> 70 then Some (n - 55)
         else None)"

definition hex4 :: "char \<Rightarrow> char \<Rightarrow> char \<Rightarrow> char \<Rightarrow> nat option" where
  "hex4 a b c d =
     (case (hex_val a, hex_val b, hex_val c, hex_val d) of
        (Some x, Some y, Some z, Some w) \<Rightarrow> Some (((x * 16 + y) * 16 + z) * 16 + w)
      | _ \<Rightarrow> None)"

definition unescape :: "char \<Rightarrow> char option" where
  "unescape e =
     (if e = CHR 0x22 then Some (CHR 0x22)
      else if e = CHR 0x5C then Some (CHR 0x5C)
      else if e = CHR ''/'' then Some (CHR ''/'')
      else if e = CHR ''b'' then Some (CHR 0x08)
      else if e = CHR ''f'' then Some (CHR 0x0C)
      else if e = CHR ''n'' then Some (CHR 0x0A)
      else if e = CHR ''r'' then Some (CHR 0x0D)
      else if e = CHR ''t'' then Some (CHR 0x09)
      else None)"

fun lex_string :: "string \<Rightarrow> (jsstring \<times> string) option" where
  "lex_string [] = None"
| "lex_string (c # cs) =
     (if c = CHR 0x22 then Some ([], cs)
      else if c = CHR 0x5C then
        (case cs of
           [] \<Rightarrow> None
         | e # cs1 \<Rightarrow>
             if e = CHR ''u'' then
               (case cs1 of
                  h1 # h2 # h3 # h4 # cs2 \<Rightarrow>
                    (case hex4 h1 h2 h3 h4 of
                       None \<Rightarrow> None
                     | Some n \<Rightarrow>
                         (case lex_string cs2 of None \<Rightarrow> None
                          | Some (s, rest) \<Rightarrow> Some (n # s, rest)))
                | _ \<Rightarrow> None)
             else
               (case unescape e of
                  None \<Rightarrow> None
                | Some ch \<Rightarrow>
                    (case lex_string cs1 of None \<Rightarrow> None
                     | Some (s, rest) \<Rightarrow> Some (of_char ch # s, rest))))
      else if (of_char c :: nat) < 32 then None
      else (case lex_string cs of None \<Rightarrow> None
            | Some (s, rest) \<Rightarrow> Some (of_char c # s, rest)))"

definition pow10 :: "int \<Rightarrow> rat" where
  "pow10 e = (if 0 \<le> e then 10 ^ nat e else 1 / 10 ^ nat (- e))"

definition lex_exponent :: "string \<Rightarrow> (int \<times> string) option" where
  "lex_exponent cs =
     (case cs of
        [] \<Rightarrow> Some (0, cs)
      | c # cs1 \<Rightarrow>
          if c = CHR ''e'' \<or> c = CHR ''E'' then
            (let (neg, cs2) =
                   (case cs1 of
                      [] \<Rightarrow> (False, cs1)
                    | s # r \<Rightarrow> if s = CHR ''-'' then (True, r)
                               else if s = CHR ''+'' then (False, r) else (False, cs1));
                 es = takeWhile is_digit cs2
             in if es = [] then None
                else Some ((if neg then - int (nat_of_digits es) else int (nat_of_digits es)),
                           dropWhile is_digit cs2))
          else Some (0, cs))"

definition lex_fraction :: "string \<Rightarrow> (string \<times> string) option" where
  "lex_fraction cs =
     (case cs of
        [] \<Rightarrow> Some ([], cs)
      | c # cs1 \<Rightarrow>
          if c = CHR ''.'' then
            (let fs = takeWhile is_digit cs1
             in if fs = [] then None else Some (fs, dropWhile is_digit cs1))
          else Some ([], cs))"

definition lex_number :: "string \<Rightarrow> (rat \<times> string) option" where
  "lex_number cs =
     (let (neg, cs1) =
            (case cs of [] \<Rightarrow> (False, cs)
             | c # r \<Rightarrow> if c = CHR ''-'' then (True, r) else (False, cs));
          ds = takeWhile is_digit cs1
      in if ds = [] \<or> (hd ds = CHR ''0'' \<and> length ds > 1) then None
         else
           (case lex_fraction (dropWhile is_digit cs1) of
              None \<Rightarrow> None
            | Some (fs, cs2) \<Rightarrow>
                (case lex_exponent cs2 of
                   None \<Rightarrow> None
                 | Some (e, rest) \<Rightarrow>
                     Some ((if neg then - 1 else 1) * of_nat (nat_of_digits (ds @ fs))
                             * pow10 (e - int (length fs)), rest))))"

function lex :: "string \<Rightarrow> token list option" where
  "lex [] = Some []"
| "lex (c # cs) =
     (if is_json_ws c then lex cs
      else if c = CHR ''{'' then (case lex cs of None \<Rightarrow> None | Some ts \<Rightarrow> Some (TLBrace # ts))
      else if c = CHR ''}'' then (case lex cs of None \<Rightarrow> None | Some ts \<Rightarrow> Some (TRBrace # ts))
      else if c = CHR ''['' then (case lex cs of None \<Rightarrow> None | Some ts \<Rightarrow> Some (TLBracket # ts))
      else if c = CHR '']'' then (case lex cs of None \<Rightarrow> None | Some ts \<Rightarrow> Some (TRBracket # ts))
      else if c = CHR '':'' then (case lex cs of None \<Rightarrow> None | Some ts \<Rightarrow> Some (TColon # ts))
      else if c = CHR '','' then (case lex cs of None \<Rightarrow> None | Some ts \<Rightarrow> Some (TComma # ts))
      else if c = CHR 0x22 then
        (case lex_string cs of
           None \<Rightarrow> None
         | Some (s, rest) \<Rightarrow>
             (case lex rest of None \<Rightarrow> None | Some ts \<Rightarrow> Some (TString s # ts)))
      else if c = CHR ''-'' \<or> is_digit c then
        (case lex_number (c # cs) of
           None \<Rightarrow> None
         | Some (r, rest) \<Rightarrow>
             (case lex rest of None \<Rightarrow> None | Some ts \<Rightarrow> Some (TNumber r # ts)))
      else if prefix ''true'' (c # cs) then
        (case lex (drop 3 cs) of None \<Rightarrow> None | Some ts \<Rightarrow> Some (TTrue # ts))
      else if prefix ''false'' (c # cs) then
        (case lex (drop 4 cs) of None \<Rightarrow> None | Some ts \<Rightarrow> Some (TFalse # ts))
      else if prefix ''null'' (c # cs) then
        (case lex (drop 3 cs) of None \<Rightarrow> None | Some ts \<Rightarrow> Some (TNull # ts))
      else None)"
  by pat_completeness auto

text \<open>The lexer terminates: every token consumes at least one character.\<close>

lemma lex_string_shorter: "lex_string cs = Some (s, rest) \<Longrightarrow> length rest < length cs"
proof (induction cs arbitrary: s rest rule: lex_string.induct)
  case 1
  then show ?case by simp
next
  case (2 c cs)
  then show ?case
    by (auto split: if_splits list.splits option.splits) fastforce+
qed

lemma lex_fraction_shorter: "lex_fraction cs = Some (fs, rest) \<Longrightarrow> length rest \<le> length cs"
  by (auto simp: lex_fraction_def Let_def split: list.splits if_splits
      intro: le_trans [OF length_dropWhile_le])

lemma lex_exponent_shorter: "lex_exponent cs = Some (e, rest) \<Longrightarrow> length rest \<le> length cs"
  by (auto simp: lex_exponent_def Let_def split: list.splits if_splits
      intro: le_trans [OF length_dropWhile_le])

lemma dropWhile_shorter: "takeWhile P xs \<noteq> [] \<Longrightarrow> length (dropWhile P xs) < length xs"
  by (cases xs) (auto split: if_splits intro: le_imp_less_Suc length_dropWhile_le)

lemma lex_number_shorter:
  assumes "lex_number cs = Some (r, rest)"
  shows "length rest < length cs"
proof -
  obtain neg cs1 where n: "(case cs of [] \<Rightarrow> (False, cs)
             | c # r \<Rightarrow> if c = CHR ''-'' then (True, r) else (False, cs)) = (neg, cs1)"
    by force
  then have l1: "length cs1 \<le> length cs"
    by (auto split: list.splits if_splits)
  from assms n obtain fs cs2 e where
    ds: "takeWhile is_digit cs1 \<noteq> []" and
    f: "lex_fraction (dropWhile is_digit cs1) = Some (fs, cs2)" and
    e: "lex_exponent cs2 = Some (e, rest)"
    by (auto simp: lex_number_def Let_def split: if_splits option.splits)
  from ds have "length (dropWhile is_digit cs1) < length cs1"
    by (rule dropWhile_shorter)
  with lex_fraction_shorter [OF f] lex_exponent_shorter [OF e] l1 show ?thesis
    by linarith
qed

termination lex
proof (relation "measure length", goal_cases)
  case 1
  then show ?case by simp
next
  case (9 c cs x2 s rest)
  then show ?case
    using lex_string_shorter [of cs s rest] by simp
next
  case (10 c cs x2 r rest)
  then show ?case
    using lex_number_shorter [of "c # cs" r rest] by simp
qed simp_all

fun put_property :: "jsstring \<Rightarrow> jsval \<Rightarrow> (jsstring \<times> jsval) list \<Rightarrow> (jsstring \<times> jsval) list" where
  "put_property k v [] = [(k, v)]"
| "put_property k v ((k', v') # ps) =
     (if k' = k then (k, v) # ps else (k', v') # put_property k v ps)"

definition object_of :: "(jsstring \<times> jsval) list \<Rightarrow> (jsstring \<times> jsval) list" where
  "object_of ms = foldl (\<lambda>ps (k, v). put_property k v ps) [] ms"

fun parse_value :: "token list \<Rightarrow> (jsval \<times> token list) option"
  and parse_elements :: "token list \<Rightarrow> (jsval list \<times> token list) option"
  and parse_members :: "token list \<Rightarrow> ((jsstring \<times> jsval) list \<times> token list) option"
where
  "parse_value [] = None"
| "parse_value (TNull # ts) = Some (JNull, ts)"
| "parse_value (TTrue # ts) = Some (JBool True, ts)"
| "parse_value (TFalse # ts) = Some (JBool False, ts)"
| "parse_value (TNumber r # ts) = Some (JNum r, ts)"
| "parse_value (TString s # ts) = Some (JStr s, ts)"
| "parse_value (TLBracket # ts) =
     (if take 1 ts = [TRBracket] then Some (JArr [], drop 1 ts)
      else (case parse_elements ts of None \<Rightarrow> None
            | Some (vs, ts1) \<Rightarrow> Some (JArr vs, ts1)))"
| "parse_value (TLBrace # ts) =
     (if take 1 ts = [TRBrace] then Some (JObj [], drop 1 ts)
      else (case parse_members ts of None \<Rightarrow> None
            | Some (ms, ts1) \<Rightarrow> Some (JObj (object_of ms), ts1)))"
| "parse_value (TRBrace # ts) = None"
| "parse_value (TRBracket # ts) = None"
| "parse_value (TColon # ts) = None"
| "parse_value (TComma # ts) = None"
| "parse_elements ts =
     (case parse_value ts of
        None \<Rightarrow> None
      | Some (v, ts1) \<Rightarrow>
          (case ts1 of
             TComma # ts2 \<Rightarrow>
               if length ts2 < length ts then
                 (case parse_elements ts2 of None \<Rightarrow> None
                  | Some (vs, ts3) \<Rightarrow> Some (v # vs, ts3))
               else None
           | TRBracket # ts2 \<Rightarrow> Some ([v], ts2)
           | _ \<Rightarrow> None))"
| "parse_members ts =
     (case ts of
        TString k # TColon # ts1 \<Rightarrow>
          (case parse_value ts1 of
             None \<Rightarrow> None
           | Some (v, ts2) \<Rightarrow>
               (case ts2 of
                  TComma # ts3 \<Rightarrow>
                    if length ts3 < length ts then
                      (case parse_members ts3 of None \<Rightarrow> None
                       | Some (ms, ts4) \<Rightarrow> Some ((k, v) # ms, ts4))
                    else None
                | TRBrace # ts3 \<Rightarrow> Some ([(k, v)], ts3)
                | _ \<Rightarrow> None))
      | _ \<Rightarrow> None)"

definition JSON_parse :: "string \<Rightarrow> jsval option" where
  "JSON_parse s =
     (case lex s of
        None \<Rightarrow> None
      | Some ts \<Rightarrow> (case parse_value ts of Some (v, []) \<Rightarrow> Some v | _ \<Rightarrow> None))"

section \<open>The runtime's JSON.stringify, on an array of notes\<close>

text \<open>
  \<^verbatim>\<open>saveNotes\<close> passes an array of \<^verbatim>\<open>Note\<close> objects, whose properties are, in this
  order, \<^verbatim>\<open>id\<close>, \<^verbatim>\<open>title\<close>, \<^verbatim>\<open>content\<close> and \<^verbatim>\<open>updatedAt\<close>. \<open>QuoteJSONString\<close> is the
  operation of that name in the language standard, \<open>note_to_js\<close> the object that a note is
  for \<^verbatim>\<open>JSON.parse\<close>.
\<close>

definition hex_digit :: "nat \<Rightarrow> char" where
  "hex_digit n = (if n < 10 then char_of (48 + n) else char_of (87 + n))"

definition quote_char :: "char \<Rightarrow> string" where
  "quote_char c =
     (if c = CHR 0x08 then [CHR 0x5C, CHR ''b'']
      else if c = CHR 0x09 then [CHR 0x5C, CHR ''t'']
      else if c = CHR 0x0A then [CHR 0x5C, CHR ''n'']
      else if c = CHR 0x0C then [CHR 0x5C, CHR ''f'']
      else if c = CHR 0x0D then [CHR 0x5C, CHR ''r'']
      else if c = CHR 0x22 then [CHR 0x5C, CHR 0x22]
      else if c = CHR 0x5C then [CHR 0x5C, CHR 0x5C]
      else if (of_char c :: nat) < 32 then
        [CHR 0x5C, CHR ''u'', CHR ''0'', CHR ''0'',
         hex_digit (of_char c div 16), hex_digit (of_char c mod 16)]
      else [c])"

definition QuoteJSONString :: "string \<Rightarrow> string" where
  "QuoteJSONString s = CHR 0x22 # concat (map quote_char s) @ [CHR 0x22]"

definition note_to_js :: "Note \<Rightarrow> jsval" where
  "note_to_js n =
     JObj [(js_string ''id'', JStr (js_string (note_id n))),
           (js_string ''title'', JStr (js_string (title n))),
           (js_string ''content'', JStr (js_string (content n))),
           (js_string ''updatedAt'', JNum (of_int (updatedAt n)))]"

definition stringify_note :: "Note \<Rightarrow> string" where
  "stringify_note n =
     ''{'' @ QuoteJSONString ''id'' @ '':'' @ QuoteJSONString (note_id n) @ '','' @
     QuoteJSONString ''title'' @ '':'' @ QuoteJSONString (title n) @ '','' @
     QuoteJSONString ''content'' @ '':'' @ QuoteJSONString (content n) @ '','' @
     QuoteJSONString ''updatedAt'' @ '':'' @ show_int (updatedAt n) @ ''}''"

fun join_commas :: "string list \<Rightarrow> string" where
  "join_commas [] = []"
| "join_commas [x] = x"
| "join_commas (x # y # ys) = x @ '','' @ join_commas (y # ys)"

definition JSON_stringify :: "Note list \<Rightarrow> string" where
  "JSON_stringify ns = ''['' @ join_commas (map stringify_note ns) @ '']''"

section \<open>localStorage, loadNotes and saveNotes\<close>

text \<open>
  The storage of the origin: the stored items, the room left for an item (\<open>quota\<close>, in
  characters of key and value), and whether the page is denied access. A denied access and
  a full storage make \<^verbatim>\<open>getItem\<close> and \<^verbatim>\<open>setItem\<close> throw; \<open>loadNotes_try\<close> is the body of the
  \<^verbatim>\<open>try\<close> block of \<^verbatim>\<open>loadNotes\<close>, its exceptions the \<open>Inl\<close> values.
\<close>

datatype exception = SecurityError | QuotaExceededError | SyntaxError

record localStorage =
  items :: "(string \<times> string) list"
  quota :: nat
  denied :: bool

definition STORAGE_KEY :: string where
  "STORAGE_KEY = ''notes_app_notes_v1''"

fun put_item :: "string \<Rightarrow> string \<Rightarrow> (string \<times> string) list \<Rightarrow> (string \<times> string) list" where
  "put_item k v [] = [(k, v)]"
| "put_item k v ((k', v') # ps) =
     (if k' = k then (k, v) # ps else (k', v') # put_item k v ps)"

definition getItem :: "localStorage \<Rightarrow> string \<Rightarrow> exception + string option" where
  "getItem ls k = (if denied ls then Inl SecurityError else Inr (map_of (items ls) k))"

definition setItem :: "localStorage \<Rightarrow> string \<Rightarrow> string \<Rightarrow> exception + localStorage" where
  "setItem ls k v =
     (if denied ls then Inl SecurityError
      else if quota ls < length k + length v then Inl QuotaExceededError
      else Inr (ls\<lparr>items := put_item k v (items ls)\<rparr>))"

definition loadNotes_try :: "localStorage \<Rightarrow> exception + jsval list" where
  "loadNotes_try ls =
     (case getItem ls STORAGE_KEY of
        Inl e \<Rightarrow> Inl e
      | Inr None \<Rightarrow> Inr []
      | Inr (Some raw) \<Rightarrow>
          if raw = [] then Inr []
          else
            (case JSON_parse raw of
               None \<Rightarrow> Inl SyntaxError
             | Some parsed \<Rightarrow>
                 (case parsed of JArr xs \<Rightarrow> Inr xs | _ \<Rightarrow> Inr [])))"

definition loadNotes :: "localStorage \<Rightarrow> jsval list" where
  "loadNotes ls = (case loadNotes_try ls of Inl e \<Rightarrow> [] | Inr xs \<Rightarrow> xs)"

definition saveNotes :: "localStorage \<Rightarrow> Note list \<Rightarrow> localStorage" where
  "saveNotes ls ns =
     (case setItem ls STORAGE_KEY (JSON_stringify ns) of Inl e \<Rightarrow> ls | Inr ls' \<Rightarrow> ls')"

section \<open>The states the App component reaches\<close>

text \<open>
  The first render takes the notes and the selection from two calls of \<^verbatim>\<open>loadNotes()\<close>;
  the handlers are typed by the \<^verbatim>\<open>Note\<close> typedef, so the first state is given for a
  storage whose array holds notes (an absent or unreadable one gives the empty array).
  The list offers the notes of \<open>filteredNotes\<close> for selection, the editor edits the selected
  note, the header creates, deletes and sets the search text.
\<close>

definition App_init :: "Note list \<Rightarrow> app" where
  "App_init ns =
     \<lparr>notes = ns, selectedId = (case ns of [] \<Rightarrow> None | n # _ \<Rightarrow> Some (note_id n)), query = []\<rparr>"

inductive reachable :: "app \<Rightarrow> bool" where
  initial: "loadNotes ls = map note_to_js ns \<Longrightarrow> reachable (App_init ns)"
| select: "reachable st \<Longrightarrow> n \<in> set (filteredNotes (notes st) (query st)) \<Longrightarrow>
     reachable (handleSelect (note_id n) st)"
| create: "reachable st \<Longrightarrow> reachable (handleNew t1 r36 t2 st)"
| delete: "reachable st \<Longrightarrow> reachable (handleDelete st)"
| edit_title: "reachable st \<Longrightarrow> reachable (handleTitle v now st)"
| edit_content: "reachable st \<Longrightarrow> reachable (handleContent v now st)"
| search: "reachable st \<Longrightarrow> reachable (setQuery q st)"

section \<open>The store operations of the specification\<close>

text \<open>
  The specification's Create, Update and Delete are the handlers above. Delete of an id
  is the user's path to it: select that note, then press Delete.
\<close>

definition Delete_id :: "string \<Rightarrow> app \<Rightarrow> app" where
  "Delete_id i st = handleDelete (handleSelect i st)"

datatype store_op = Create int string int | Update Note | Delete string

fun apply_op :: "store_op \<Rightarrow> app \<Rightarrow> app" where
  "apply_op (Create t1 r36 t2) st = handleNew t1 r36 t2 st"
| "apply_op (Update n) st = handleChange n st"
| "apply_op (Delete i) st = Delete_id i st"

fun run :: "store_op list \<Rightarrow> app \<Rightarrow> app" where
  "run [] st = st"
| "run (e # es) st = run es (apply_op e st)"

definition ids :: "app \<Rightarrow> string list" where
  "ids st = map note_id (notes st)"

fun creates_fresh :: "store_op list \<Rightarrow> app \<Rightarrow> bool" where
  \<comment> \<open>Every Create of the run generates an id that the collection does not hold then.\<close>
  "creates_fresh [] st = True"
| "creates_fresh (e # es) st =
     ((case e of Create t1 r36 _ \<Rightarrow> generateId t1 r36 \<notin> set (ids st) | _ \<Rightarrow> True)
      \<and> creates_fresh es (apply_op e st))"

section \<open>Notions of the specification\<close>


text \<open>
  A note-like record, after the persistence format of the specification: an object with a
  string \<^verbatim>\<open>id\<close>, \<^verbatim>\<open>title\<close> and \<^verbatim>\<open>content\<close> and a number \<^verbatim>\<open>updatedAt\<close>.
\<close>

definition has_string :: "(jsstring \<times> jsval) list \<Rightarrow> jsstring \<Rightarrow> bool" where
  "has_string ps k = (case map_of ps k of Some (JStr _) \<Rightarrow> True | _ \<Rightarrow> False)"

definition has_number :: "(jsstring \<times> jsval) list \<Rightarrow> jsstring \<Rightarrow> bool" where
  "has_number ps k = (case map_of ps k of Some (JNum _) \<Rightarrow> True | _ \<Rightarrow> False)"

definition note_like :: "jsval \<Rightarrow> bool" where
  "note_like v =
     (case v of
        JObj ps \<Rightarrow> has_string ps (js_string ''id'') \<and> has_string ps (js_string ''title'') \<and>
                  has_string ps (js_string ''content'') \<and>
                  has_number ps (js_string ''updatedAt'')
      | _ \<Rightarrow> False)"

definition parseable_as_notes :: "string \<Rightarrow> bool" where
  "parseable_as_notes raw =
     (case JSON_parse raw of Some (JArr xs) \<Rightarrow> list_all note_like xs | _ \<Rightarrow> False)"

definition selection_valid :: "app \<Rightarrow> bool" where
  "selection_valid st = (case selectedId st of None \<Rightarrow> True | Some i \<Rightarrow> i \<in> set (ids st))"

text \<open>States and notes used as examples.\<close>

definition empty_app :: app where
  "empty_app = \<lparr>notes = [], selectedId = None, query = []\<rparr>"

definition groceries :: Note where
  "groceries = \<lparr>note_id = ''a'', title = ''Groceries'', content = ''milk'', updatedAt = 100\<rparr>"

definition meeting :: Note where
  "meeting = \<lparr>note_id = ''b'', title = ''Meeting notes'', content = ''agenda'', updatedAt = 200\<rparr>"

section \<open>Facts about sorting and searching\<close>

lemma insert_by_newest_first:
  "insert_by newest_first x ys = insort_key (\<lambda>n. - updatedAt n) x ys"
  by (induction ys) (auto simp: newest_first_def)

lemma sort_by_newest_first:
  "sort_by newest_first xs = sort_key (\<lambda>n. - updatedAt n) xs"
  by (induction xs) (auto simp: insert_by_newest_first)




lemma trim_Nil: "trim [] = []"
  by (simp add: trim_def)

lemma filteredNotes_blank:
  "trim s = [] \<Longrightarrow> filteredNotes X s = sort_key (\<lambda>n. - updatedAt n) X"
  by (simp add: filteredNotes_def toLowerCase_def sort_by_newest_first)


section \<open>Facts about the handlers\<close>

lemma ids_handleChange: "ids (handleChange u st) = ids st"
  by (simp add: ids_def handleChange_def comp_def)

lemma ids_handleDelete: "distinct (ids st) \<Longrightarrow> distinct (ids (handleDelete st))"
  by (auto simp: ids_def handleDelete_def Let_def distinct_map_filter split: option.splits)

lemma ids_handleSelect: "ids (handleSelect i st) = ids st"
  by (simp add: ids_def handleSelect_def)

lemma ids_handleNew: "ids (handleNew t1 r t2 st) = generateId t1 r # ids st"
  by (simp add: ids_def handleNew_def)

lemma apply_op_distinct:
  "distinct (ids st) \<Longrightarrow> creates_fresh [e] st \<Longrightarrow> distinct (ids (apply_op e st))"
  by (cases e)
    (auto simp: ids_handleChange ids_handleNew ids_handleSelect Delete_id_def
      intro: ids_handleDelete)

lemma set_filteredNotes: "set (filteredNotes xs q) \<subseteq> set xs"
  by (auto simp: filteredNotes_def Let_def sort_by_newest_first)

lemma selection_valid_iff:
  "selection_valid st \<longleftrightarrow> (\<forall>i. selectedId st = Some i \<longrightarrow> i \<in> set (ids st))"
  by (simp add: selection_valid_def split: option.splits)

lemma selectedId_handleChange: "selectedId (handleChange u st) = selectedId st"
  by (simp add: handleChange_def)

lemma selection_valid_handleDelete:
  assumes "selection_valid st"
  shows "selection_valid (handleDelete st)"
proof (cases "selectedId st")
  case None
  with assms show ?thesis
    by (simp add: handleDelete_def)
next
  case (Some sid)
  show ?thesis
  proof (cases "sid = []")
    case True
    with Some assms show ?thesis
      by (simp add: handleDelete_def)
  next
    case False
    let ?rem = "filter (\<lambda>n. note_id n \<noteq> sid) (filteredNotes (notes st) (query st))"
    have sub: "set ?rem \<subseteq> set (filter (\<lambda>n. note_id n \<noteq> sid) (notes st))"
      using set_filteredNotes [of "notes st" "query st"] by auto
    show ?thesis
    proof (cases ?rem)
      case Nil
      with Some False show ?thesis
        by (simp add: handleDelete_def selection_valid_iff Let_def)
    next
      case (Cons n ns)
      then have "n \<in> set ?rem"
        by simp
      with sub have "n \<in> set (filter (\<lambda>n. note_id n \<noteq> sid) (notes st))"
        by blast
      then have "note_id n \<in> set (map note_id (filter (\<lambda>n. note_id n \<noteq> sid) (notes st)))"
        by (metis imageI set_map)
      with Some False Cons show ?thesis
        by (simp add: handleDelete_def selection_valid_iff Let_def ids_def)
    qed
  qed
qed

lemma selection_valid_handleChange:
  "selection_valid st \<Longrightarrow> selection_valid (handleChange u st)"
  by (simp add: selection_valid_iff ids_handleChange selectedId_handleChange)

section \<open>Facts about the parser\<close>

text \<open>
  The parser consumes input, so the length tests that its definition carries for
  termination always succeed and drop out of its equations.
\<close>

lemma parse_shorter:
  "parse_value ts = Some (v, r) \<longrightarrow> length r < length ts"
  "parse_elements ts = Some (vs, r1) \<longrightarrow> length r1 < length ts"
  "parse_members ts = Some (ms, r2) \<longrightarrow> length r2 < length ts"
proof (induction ts and ts and ts arbitrary: v r and vs r1 and ms r2
    rule: parse_value_parse_elements_parse_members.induct)
  case (7 ts)
  show ?case
  proof (cases "take 1 ts = [TRBracket]")
    case True
    then show ?thesis by auto
  next
    case False
    with 7 [OF False] show ?thesis
      by (auto split: option.splits) fastforce
  qed
next
  case (8 ts)
  show ?case
  proof (cases "take 1 ts = [TRBrace]")
    case True
    then show ?thesis by auto
  next
    case False
    with 8 [OF False] show ?thesis
      by (auto split: option.splits) fastforce
  qed
next
  case (13 ts)
  show ?case
  proof
    assume a: "parse_elements ts = Some (vs, r1)"
    then obtain v ts1 where pv: "parse_value ts = Some (v, ts1)"
      by (auto split: option.splits)
    with 13(1) have l: "length ts1 < length ts"
      by blast
    show "length r1 < length ts"
    proof (cases ts1)
      case Nil
      with a pv show ?thesis by simp
    next
      case (Cons t ts2)
      show ?thesis
      proof (cases "t = TComma")
        case True
        with a pv Cons obtain vs' where
          g: "length ts2 < length ts" and pe: "parse_elements ts2 = Some (vs', r1)"
          by (auto split: option.splits if_splits)
        from 13(2) [OF pv refl Cons True g] pe have "length r1 < length ts2"
          by blast
        with g show ?thesis by simp
      next
        case False
        with a pv Cons l show ?thesis
          by (cases t) auto
      qed
    qed
  qed
next
  case (14 ts)
  show ?case
  proof
    assume a: "parse_members ts = Some (ms, r2)"
    then obtain k ts1 where ts: "ts = TString k # TColon # ts1"
      by (auto split: list.splits token.splits)
    with a obtain v ts2 where pv: "parse_value ts1 = Some (v, ts2)"
      by (auto split: option.splits)
    from 14(1) [OF ts refl refl refl] pv have l: "length ts2 < length ts1"
      by blast
    show "length r2 < length ts"
    proof (cases ts2)
      case Nil
      with a ts pv show ?thesis by simp
    next
      case (Cons t ts3)
      show ?thesis
      proof (cases "t = TComma")
        case True
        with a ts pv Cons obtain ms' where
          g: "length ts3 < length ts" and pm: "parse_members ts3 = Some (ms', r2)"
          by (auto split: option.splits if_splits)
        from 14(2) [OF ts refl refl refl pv refl Cons True g] pm have "length r2 < length ts3"
          by blast
        with g show ?thesis by simp
      next
        case False
        with a ts pv Cons l show ?thesis
          by (cases t) auto
      qed
    qed
  qed
qed simp_all

lemma parse_elements_unfold:
  "parse_elements ts =
     (case parse_value ts of
        None \<Rightarrow> None
      | Some (v, ts1) \<Rightarrow>
          (case ts1 of
             TComma # ts2 \<Rightarrow>
               (case parse_elements ts2 of None \<Rightarrow> None
                | Some (vs, ts3) \<Rightarrow> Some (v # vs, ts3))
           | TRBracket # ts2 \<Rightarrow> Some ([v], ts2)
           | _ \<Rightarrow> None))"
proof (cases "parse_value ts")
  case None
  then show ?thesis by simp
next
  case (Some p)
  obtain v ts1 where p: "p = (v, ts1)"
    by (cases p)
  with Some parse_shorter(1) [of ts v ts1] have "length ts1 < length ts"
    by simp
  with Some p show ?thesis
    by (auto split: list.splits token.splits)
qed

lemma parse_members_unfold:
  "parse_members (TString k # TColon # ts1) =
     (case parse_value ts1 of
        None \<Rightarrow> None
      | Some (v, ts2) \<Rightarrow>
          (case ts2 of
             TComma # ts3 \<Rightarrow>
               (case parse_members ts3 of None \<Rightarrow> None
                | Some (ms, ts4) \<Rightarrow> Some ((k, v) # ms, ts4))
           | TRBrace # ts3 \<Rightarrow> Some ([(k, v)], ts3)
           | _ \<Rightarrow> None))"
proof (cases "parse_value ts1")
  case None
  then show ?thesis by simp
next
  case (Some p)
  obtain v ts2 where p: "p = (v, ts2)"
    by (cases p)
  with Some parse_shorter(1) [of ts1 v ts2] have "length ts2 < length ts1"
    by simp
  with Some p show ?thesis
    by (auto split: list.splits token.splits)
qed

section \<open>Parsing what JSON.stringify wrote\<close>

lemma hex_val_hex_digit: "n < 16 \<Longrightarrow> hex_val (hex_digit n) = Some n"
  by (auto simp: hex_val_def hex_digit_def Let_def)

lemma hex4_low:
  "a < 16 \<Longrightarrow> b < 16 \<Longrightarrow> hex4 (CHR ''0'') (CHR ''0'') (hex_digit a) (hex_digit b) = Some (a * 16 + b)"
  by (simp add: hex4_def hex_val_hex_digit) (simp add: hex_val_def)

lemma lex_string_quote_char:
  "lex_string (quote_char c @ cs) =
     (case lex_string cs of None \<Rightarrow> None | Some (s, rest) \<Rightarrow> Some (of_char c # s, rest))"
proof -
  consider "c \<in> set [CHR 0x08, CHR 0x09, CHR 0x0A, CHR 0x0C, CHR 0x0D, CHR 0x22, CHR 0x5C]"
    | "c \<notin> set [CHR 0x08, CHR 0x09, CHR 0x0A, CHR 0x0C, CHR 0x0D, CHR 0x22, CHR 0x5C]"
      "(of_char c :: nat) < 32"
    | "c \<notin> set [CHR 0x08, CHR 0x09, CHR 0x0A, CHR 0x0C, CHR 0x0D, CHR 0x22, CHR 0x5C]"
      "\<not> (of_char c :: nat) < 32"
    by blast
  then show ?thesis
  proof cases
    case 1
    then show ?thesis
      by (auto simp: quote_char_def unescape_def split: option.splits)
  next
    case 2
    have "(of_char c :: nat) div 16 < 16" "(of_char c :: nat) mod 16 < 16"
      using 2(2) by auto
    then have h: "hex4 (CHR ''0'') (CHR ''0'') (hex_digit (of_char c div 16)) (hex_digit (of_char c mod 16))
        = Some (of_char c)"
      by (simp add: hex4_low)
    from 2 show ?thesis
      by (simp add: quote_char_def h split: option.splits)
  next
    case 3
    then show ?thesis
      by (simp add: quote_char_def split: option.splits)
  qed
qed

lemma lex_string_quoted:
  "lex_string (concat (map quote_char s) @ CHR 0x22 # rest) = Some (js_string s, rest)"
  by (induction s) (simp_all add: lex_string_quote_char js_string_def)

declare show_nat.simps [simp del]

lemma is_digit_digit_char: "d < 10 \<Longrightarrow> is_digit (digit_char d)"
  by (simp add: is_digit_def digit_char_def)

lemma digit_val_digit_char: "d < 10 \<Longrightarrow> digit_val (digit_char d) = d"
  by (simp add: digit_val_def digit_char_def)

lemma digit_char_zero: "d < 10 \<Longrightarrow> digit_char d = CHR ''0'' \<longleftrightarrow> d = 0"
  by (auto simp: digit_char_def char_of_eq_iff take_bit_eq_mod)

lemma show_nat_nonempty: "show_nat n \<noteq> []"
  by (subst show_nat.simps) simp

lemma show_nat_digits: "c \<in> set (show_nat n) \<Longrightarrow> is_digit c"
proof (induction n arbitrary: c rule: show_nat.induct)
  case (1 n)
  then show ?case
    by (subst (asm) (2) show_nat.simps) (auto simp: is_digit_digit_char split: if_splits)
qed

lemma nat_of_digits_snoc: "nat_of_digits (ds @ [c]) = 10 * nat_of_digits ds + digit_val c"
  by (simp add: nat_of_digits_def)

lemma nat_of_digits_show_nat: "nat_of_digits (show_nat n) = n"
proof (induction n rule: show_nat.induct)
  case (1 n)
  show ?case
  proof (cases "n < 10")
    case True
    then show ?thesis
      by (subst show_nat.simps) (simp add: nat_of_digits_def digit_val_digit_char)
  next
    case False
    with 1 show ?thesis
      by (subst show_nat.simps) (simp add: nat_of_digits_snoc digit_val_digit_char)
  qed
qed

lemma show_nat_no_leading_zero: "\<not> (hd (show_nat n) = CHR ''0'' \<and> 1 < length (show_nat n))"
proof (induction n rule: show_nat.induct)
  case (1 n)
  show ?case
  proof (cases "n < 10")
    case True
    then show ?thesis
      by (subst (1 2) show_nat.simps) simp
  next
    case False
    then have "n div 10 \<noteq> 0" by simp
    have "hd (show_nat (n div 10)) \<noteq> CHR ''0''"
    proof (cases "n div 10 < 10")
      case True
      with \<open>n div 10 \<noteq> 0\<close> show ?thesis
        by (subst show_nat.simps) (simp add: digit_char_zero)
    next
      case b: False
      have "1 < length (show_nat (n div 10))"
        using b by (subst show_nat.simps) (simp add: show_nat_nonempty Suc_lessI)
      with 1 False show ?thesis
        by blast
    qed
    with False show ?thesis
      by (subst show_nat.simps) (simp add: show_nat_nonempty)
  qed
qed

lemma is_digit_simps:
  "\<not> is_digit (CHR ''}'')" "\<not> is_digit (CHR ''-'')"
  by (simp_all add: is_digit_def)

lemma lex_number_digits:
  assumes "ds \<noteq> []" "\<And>c. c \<in> set ds \<Longrightarrow> is_digit c"
    "\<not> (hd ds = CHR ''0'' \<and> 1 < length ds)"
  shows "lex_number (ds @ CHR ''}'' # rest) = Some (of_nat (nat_of_digits ds), CHR ''}'' # rest)"
    and "lex_number (CHR ''-'' # ds @ CHR ''}'' # rest)
      = Some (- of_nat (nat_of_digits ds), CHR ''}'' # rest)"
proof -
  obtain d ds' where ds: "ds = d # ds'"
    using assms(1) by (cases ds) auto
  have d: "d \<noteq> CHR ''-''"
    using assms(2) [of d] ds is_digit_simps by auto
  have tw: "takeWhile is_digit (ds @ CHR ''}'' # rest) = ds"
    using assms(2) by (simp add: is_digit_simps)
  have dw: "dropWhile is_digit (ds @ CHR ''}'' # rest) = CHR ''}'' # rest"
    using assms(2) by (simp add: is_digit_simps)
  have fr: "lex_fraction (CHR ''}'' # rest) = Some ([], CHR ''}'' # rest)"
    by (simp add: lex_fraction_def)
  have ex: "lex_exponent (CHR ''}'' # rest) = Some (0, CHR ''}'' # rest)"
    by (simp add: lex_exponent_def)
  have "lex_number ((d # ds') @ CHR ''}'' # rest)
      = Some (of_nat (nat_of_digits ds), CHR ''}'' # rest)"
    unfolding lex_number_def using d assms(1,3) tw dw fr ex
    by (simp add: ds pow10_def)
  then show "lex_number (ds @ CHR ''}'' # rest) = Some (of_nat (nat_of_digits ds), CHR ''}'' # rest)"
    by (simp add: ds)
  show "lex_number (CHR ''-'' # ds @ CHR ''}'' # rest)
      = Some (- of_nat (nat_of_digits ds), CHR ''}'' # rest)"
    unfolding lex_number_def using assms(1,3) tw dw fr ex
    by (simp add: pow10_def)
qed

lemma lex_number_show_int:
  "lex_number (show_int i @ CHR ''}'' # rest) = Some (of_int i, CHR ''}'' # rest)"
proof (cases "i < 0")
  case True
  then have "(- of_nat (nat (- i)) :: rat) = of_int i"
    by simp
  with True show ?thesis
    using lex_number_digits(2) [where ds = "show_nat (nat (- i))" and rest = rest,
        OF show_nat_nonempty show_nat_digits show_nat_no_leading_zero]
    by (simp add: show_int_def nat_of_digits_show_nat)
next
  case False
  then have "(of_nat (nat i) :: rat) = of_int i"
    by simp
  with False show ?thesis
    using lex_number_digits(1) [where ds = "show_nat (nat i)" and rest = rest,
        OF show_nat_nonempty show_nat_digits show_nat_no_leading_zero]
    by (simp add: show_int_def nat_of_digits_show_nat)
qed

definition note_tokens :: "Note \<Rightarrow> token list" where
  "note_tokens n =
     [TLBrace, TString (js_string ''id''), TColon, TString (js_string (note_id n)), TComma,
      TString (js_string ''title''), TColon, TString (js_string (title n)), TComma,
      TString (js_string ''content''), TColon, TString (js_string (content n)), TComma,
      TString (js_string ''updatedAt''), TColon, TNumber (of_int (updatedAt n)), TRBrace]"

fun notes_tokens :: "Note list \<Rightarrow> token list" where
  "notes_tokens [] = []"
| "notes_tokens [n] = note_tokens n"
| "notes_tokens (n # m # ns) = note_tokens n @ TComma # notes_tokens (m # ns)"

lemma lex_quoted:
  "lex (QuoteJSONString s @ rest) =
     (case lex rest of None \<Rightarrow> None | Some ts \<Rightarrow> Some (TString (js_string s) # ts))"
  by (simp add: QuoteJSONString_def is_json_ws_def lex_string_quoted)

lemma digit_not_other:
  assumes "is_digit c \<or> c = CHR ''-''"
  shows "\<not> is_json_ws c" "c \<noteq> CHR ''{''" "c \<noteq> CHR ''}''" "c \<noteq> CHR ''[''" "c \<noteq> CHR '']''"
    "c \<noteq> CHR '':''" "c \<noteq> CHR '',''" "c \<noteq> CHR 0x22"
  using assms by (auto simp: is_digit_def is_json_ws_def)

lemma show_int_head: "\<exists>c cs. show_int i = c # cs \<and> (is_digit c \<or> c = CHR ''-'')"
proof (cases "i < 0")
  case True
  then show ?thesis by (simp add: show_int_def)
next
  case False
  obtain c cs where "show_nat (nat i) = c # cs"
    using show_nat_nonempty [of "nat i"] by (cases "show_nat (nat i)") auto
  with False show_nat_digits [of c "nat i"] show ?thesis
    by (simp add: show_int_def)
qed

lemma lex_show_int:
  "lex (show_int i @ CHR ''}'' # rest) =
     (case lex rest of None \<Rightarrow> None | Some ts \<Rightarrow> Some (TNumber (of_int i) # TRBrace # ts))"
proof -
  obtain c cs where c: "show_int i = c # cs" "is_digit c \<or> c = CHR ''-''"
    using show_int_head by blast
  have n: "lex_number (c # cs @ CHR ''}'' # rest) = Some (of_int i, CHR ''}'' # rest)"
    using lex_number_show_int [of i rest] c(1) by simp
  have "lex (c # cs @ CHR ''}'' # rest) =
     (case lex (CHR ''}'' # rest) of None \<Rightarrow> None | Some ts \<Rightarrow> Some (TNumber (of_int i) # ts))"
    using digit_not_other [OF c(2)] c(2) n by (auto simp del: lex.simps(2) simp add: lex.simps(2) [of c])
  then show ?thesis
    by (simp add: c(1) is_json_ws_def split: option.splits)
qed

lemma lex_punct:
  "lex (CHR ''{'' # cs) = (case lex cs of None \<Rightarrow> None | Some ts \<Rightarrow> Some (TLBrace # ts))"
  "lex (CHR ''['' # cs) = (case lex cs of None \<Rightarrow> None | Some ts \<Rightarrow> Some (TLBracket # ts))"
  "lex (CHR '']'' # cs) = (case lex cs of None \<Rightarrow> None | Some ts \<Rightarrow> Some (TRBracket # ts))"
  "lex (CHR '':'' # cs) = (case lex cs of None \<Rightarrow> None | Some ts \<Rightarrow> Some (TColon # ts))"
  "lex (CHR '','' # cs) = (case lex cs of None \<Rightarrow> None | Some ts \<Rightarrow> Some (TComma # ts))"
  by (simp_all add: is_json_ws_def)

lemma lex_note:
  "lex (stringify_note n @ rest) =
     (case lex rest of None \<Rightarrow> None | Some ts \<Rightarrow> Some (note_tokens n @ ts))"
  unfolding stringify_note_def note_tokens_def
  by (simp del: lex.simps(2) add: lex_punct lex_quoted lex_show_int split: option.splits)

lemma lex_notes:
  "ns \<noteq> [] \<Longrightarrow>
   lex (join_commas (map stringify_note ns) @ rest) =
     (case lex rest of None \<Rightarrow> None | Some ts \<Rightarrow> Some (notes_tokens ns @ ts))"
proof (induction ns rule: notes_tokens.induct)
  case 1
  then show ?case by simp
next
  case (2 n)
  show ?case
    by (simp del: lex.simps(2) add: lex_note split: option.splits)
next
  case (3 n m ns)
  then show ?case
    by (simp del: lex.simps(2) add: lex_note lex_punct split: option.splits)
qed

lemma lex_JSON_stringify:
  "lex (JSON_stringify ns) =
     Some (if ns = [] then [TLBracket, TRBracket]
           else TLBracket # notes_tokens ns @ [TRBracket])"
proof (cases "ns = []")
  case True
  then show ?thesis
    by (simp add: JSON_stringify_def is_json_ws_def)
next
  case False
  have "lex (CHR ''['' # join_commas (map stringify_note ns) @ '']'')
      = Some (TLBracket # notes_tokens ns @ [TRBracket])"
    by (simp del: lex.simps(2) add: lex_punct lex_notes [OF False])
  with False show ?thesis
    by (simp del: lex.simps(2) add: JSON_stringify_def)
qed

lemma parse_note: "parse_value (note_tokens n @ ts) = Some (note_to_js n, ts)"
  by (simp add: note_tokens_def note_to_js_def parse_members_unfold object_of_def js_string_def
      del: parse_members.simps)

lemma note_tokens_head: "take 1 (note_tokens n @ ts) \<noteq> [TRBracket]"
  by (simp add: note_tokens_def)

lemma parse_notes:
  "ns \<noteq> [] \<Longrightarrow>
   parse_elements (notes_tokens ns @ TRBracket # ts) = Some (map note_to_js ns, ts)"
proof (induction ns rule: notes_tokens.induct)
  case 1
  then show ?case by simp
next
  case (2 n)
  show ?case
    by (subst parse_elements_unfold) (simp add: parse_note del: parse_elements.simps)
next
  case (3 n m ns)
  then show ?case
    by (subst parse_elements_unfold) (simp add: parse_note del: parse_elements.simps)
qed

lemma notes_tokens_head: "ns \<noteq> [] \<Longrightarrow> take 1 (notes_tokens ns @ ts) \<noteq> [TRBracket]"
  by (induction ns rule: notes_tokens.induct) (simp_all add: note_tokens_def)

lemma JSON_parse_stringify: "JSON_parse (JSON_stringify ns) = Some (JArr (map note_to_js ns))"
proof (cases "ns = []")
  case True
  then show ?thesis
    by (simp add: JSON_parse_def lex_JSON_stringify)
next
  case False
  then show ?thesis
    using parse_notes [OF False, of "[]"] notes_tokens_head [OF False, of "[TRBracket]"]
    by (simp add: JSON_parse_def lex_JSON_stringify del: parse_elements.simps)
qed

lemma map_of_put_item: "map_of (put_item k v ps) k = Some v"
  by (induction ps) auto

lemma JSON_stringify_nonempty: "JSON_stringify X \<noteq> []"
  by (simp add: JSON_stringify_def)

text \<open>The object of a note determines the note.\<close>

lemma js_string_inj: "js_string a = js_string b \<longleftrightarrow> a = b"
proof -
  have "inj (of_char :: char \<Rightarrow> nat)"
    by (rule injI) simp
  then show ?thesis
    by (simp add: js_string_def inj_map_eq_map)
qed

lemma note_to_js_inj: "note_to_js a = note_to_js b \<Longrightarrow> a = b"
  by (cases a, cases b) (simp add: note_to_js_def js_string_inj)

text \<open>Identifiers as \<open>generateId\<close> makes them, evaluated.\<close>

lemma digit_char_numerals:
  "digit_char 0 = CHR ''0''" "digit_char 1 = CHR ''1''" "digit_char 2 = CHR ''2''"
  "digit_char 3 = CHR ''3''" "digit_char 4 = CHR ''4''" "digit_char 5 = CHR ''5''"
  "digit_char 6 = CHR ''6''" "digit_char 7 = CHR ''7''" "digit_char 8 = CHR ''8''"
  "digit_char 9 = CHR ''9''" "digit_char (Suc 0) = CHR ''1''"
  by (simp_all add: digit_char_def char_of_eq_iff take_bit_eq_mod)

lemma generateId_examples:
  "generateId 1700000000000 ''0.4fzyo82mvyr'' = ''1700000000000-4fzyo8''"
  "generateId 1700000000000 ''0.4fzyo8k1xq3'' = ''1700000000000-4fzyo8''"
  "generateId 1700000000321 ''0.k3j9x2m7pqa'' = ''1700000000321-k3j9x2''"
  by (simp_all add: generateId_def show_int_def show_nat.simps digit_char_numerals slice_def)

section \<open>The claims\<close>

text \<open>
  C1 (amended). Starting from a collection with unique ids, a sequence of Create, Update
  and Delete operations in which every Create generates an id that the collection does
  not hold at that moment ends in a collection with unique ids. Update and Delete never
  introduce a duplicate; Create compares its id with nothing.
\<close>

theorem ids_unique_when_creates_fresh: "distinct (ids st) \<Longrightarrow> creates_fresh es st \<Longrightarrow> distinct (ids (run es st))"
proof (induction es arbitrary: st)
  case Nil
  then show ?case by simp
next
  case (Cons e es)
  from Cons.prems have "distinct (ids (apply_op e st))"
    by (intro apply_op_distinct) auto
  moreover from Cons.prems have "creates_fresh es (apply_op e st)" by simp
  ultimately show ?case using Cons.IH by simp
qed

text \<open>
  C1 as stated fails: two Creates in the same millisecond whose random numbers agree in
  the six digits that \<open>generateId\<close> keeps give two notes with the same id.
\<close>

theorem ids_unique_counterexample:
  "distinct (ids empty_app) \<and>
   \<not> distinct (ids (run [Create 1700000000000 ''0.4fzyo82mvyr'' 1700000000000,
                          Create 1700000000000 ''0.4fzyo8k1xq3'' 1700000000000] empty_app))"
  by (simp add: ids_handleNew generateId_examples) (simp add: ids_def empty_app_def)

theorem ids_unique_witness:
  "distinct (ids empty_app) \<and>
   creates_fresh [Create 1700000000000 ''0.4fzyo82mvyr'' 1700000000000,
                  Create 1700000000321 ''0.k3j9x2m7pqa'' 1700000000321,
                  Delete ''1700000000000-4fzyo8''] empty_app \<and>
   distinct (ids (run [Create 1700000000000 ''0.4fzyo82mvyr'' 1700000000000,
                       Create 1700000000321 ''0.k3j9x2m7pqa'' 1700000000321,
                       Delete ''1700000000000-4fzyo8''] empty_app))"
proof -
  have d: "distinct (ids empty_app)"
    by (simp add: ids_def empty_app_def)
  have f: "creates_fresh [Create 1700000000000 ''0.4fzyo82mvyr'' 1700000000000,
                  Create 1700000000321 ''0.k3j9x2m7pqa'' 1700000000321,
                  Delete ''1700000000000-4fzyo8''] empty_app"
    by (simp add: ids_handleNew generateId_examples) (simp add: ids_def empty_app_def)
  from ids_unique_when_creates_fresh [OF d f] d f show ?thesis by simp
qed

text \<open>
  C2 (amended). \<open>loadNotes\<close> returns the empty collection, and raises nothing, when the
  storage cannot be read, holds nothing under the key, holds the empty text, a text that is
  not valid JSON, or JSON that is not an array; an exception of its body is caught and
  gives the empty collection. A stored JSON array is returned as it is, whatever its
  elements are.
\<close>

theorem load_defaults_to_empty:
  "(getItem ls STORAGE_KEY = Inl e \<longrightarrow> loadNotes ls = []) \<and>
   (getItem ls STORAGE_KEY = Inr None \<longrightarrow> loadNotes ls = []) \<and>
   (getItem ls STORAGE_KEY = Inr (Some raw) \<and>
      (raw = [] \<or> JSON_parse raw = None \<or> (\<exists>v. JSON_parse raw = Some v \<and> (\<forall>xs. v \<noteq> JArr xs)))
      \<longrightarrow> loadNotes ls = []) \<and>
   (getItem ls STORAGE_KEY = Inr (Some raw) \<and> raw \<noteq> [] \<and> JSON_parse raw = Some (JArr xs)
      \<longrightarrow> loadNotes ls = xs) \<and>
   (loadNotes_try ls = Inl e \<longrightarrow> loadNotes ls = [])"
  by (auto simp: loadNotes_def loadNotes_try_def split: jsval.splits)

text \<open>
  C2 as stated fails: the stored text \<open>''[1]''\<close> is not parseable as a sequence of
  note-like records, and \<open>loadNotes\<close> returns the array with the number in it.
\<close>

theorem load_array_counterexample:
  "\<not> parseable_as_notes ''[1]'' \<and>
   loadNotes \<lparr>items = [(STORAGE_KEY, ''[1]'')], quota = 0, denied = False\<rparr> = [JNum 1]"
  by code_simp

theorem load_witness:
  "JSON_parse ''{oops'' = None \<and>
   loadNotes \<lparr>items = [(STORAGE_KEY, ''{oops'')], quota = 0, denied = False\<rparr> = [] \<and>
   loadNotes \<lparr>items = [(STORAGE_KEY, ''[true]'')], quota = 0, denied = False\<rparr> = [JBool True] \<and>
   loadNotes \<lparr>items = [(STORAGE_KEY, [CHR ''['', CHR 0x22, CHR 0x5C, CHR ''u'', CHR ''0'', CHR ''1'',
                                         CHR ''0'', CHR ''0'', CHR 0x22, CHR '']''])],
              quota = 0, denied = False\<rparr> = [JStr [256]]"
proof -
  let ?esc = "[CHR ''['', CHR 0x22, CHR 0x5C, CHR ''u'', CHR ''0'', CHR ''1'',
               CHR ''0'', CHR ''0'', CHR 0x22, CHR '']'']"
  have g: "getItem \<lparr>items = [(STORAGE_KEY, ''{oops'')], quota = 0, denied = False\<rparr> STORAGE_KEY
      = Inr (Some ''{oops'')"
    "getItem \<lparr>items = [(STORAGE_KEY, ''[true]'')], quota = 0, denied = False\<rparr> STORAGE_KEY
      = Inr (Some ''[true]'')"
    "getItem \<lparr>items = [(STORAGE_KEY, ?esc)], quota = 0, denied = False\<rparr> STORAGE_KEY
      = Inr (Some ?esc)"
    by (simp_all add: getItem_def)
  have p: "JSON_parse ''{oops'' = None" "JSON_parse ''[true]'' = Some (JArr [JBool True])"
    "JSON_parse ?esc = Some (JArr [JStr [256]])"
    by code_simp+
  from load_defaults_to_empty [of "\<lparr>items = [(STORAGE_KEY, ''{oops'')], quota = 0, denied = False\<rparr>" _ "''{oops''"]
    load_defaults_to_empty [of "\<lparr>items = [(STORAGE_KEY, ''[true]'')], quota = 0, denied = False\<rparr>" _ "''[true]''"
      "[JBool True]"]
    load_defaults_to_empty [of "\<lparr>items = [(STORAGE_KEY, ?esc)], quota = 0, denied = False\<rparr>" _ ?esc
      "[JStr [256]]"] g p
  show ?thesis
    by simp
qed

text \<open>
  C3 (amended). When the write succeeds (the storage is accessible and has room for the
  text), what \<open>loadNotes\<close> returns after \<open>saveNotes\<close> of a collection of notes is that
  collection, note by note (as the objects of \<open>note_to_js\<close>, which determine the notes).
  When the write fails, \<open>saveNotes\<close> swallows the error and
  leaves the storage as it was, so \<open>loadNotes\<close> returns what was stored before.
\<close>

theorem save_then_load:
  "(\<not> denied ls \<and> length STORAGE_KEY + length (JSON_stringify X) \<le> quota ls \<longrightarrow>
      loadNotes (saveNotes ls X) = map note_to_js X) \<and>
   (denied ls \<or> quota ls < length STORAGE_KEY + length (JSON_stringify X) \<longrightarrow>
      saveNotes ls X = ls \<and> loadNotes (saveNotes ls X) = loadNotes ls)"
proof (intro conjI impI)
  assume a: "\<not> denied ls \<and> length STORAGE_KEY + length (JSON_stringify X) \<le> quota ls"
  then have s: "saveNotes ls X = ls\<lparr>items := put_item STORAGE_KEY (JSON_stringify X) (items ls)\<rparr>"
    by (simp add: saveNotes_def setItem_def)
  have "getItem (saveNotes ls X) STORAGE_KEY = Inr (Some (JSON_stringify X))"
    using a by (simp add: s getItem_def map_of_put_item)
  then show "loadNotes (saveNotes ls X) = map note_to_js X"
    by (simp add: loadNotes_def loadNotes_try_def JSON_stringify_nonempty JSON_parse_stringify)
next
  assume "denied ls \<or> quota ls < length STORAGE_KEY + length (JSON_stringify X)"
  then show s: "saveNotes ls X = ls"
    by (auto simp: saveNotes_def setItem_def)
  then show "loadNotes (saveNotes ls X) = loadNotes ls"
    by simp
qed

text \<open>
  C3 as stated fails: on a storage with no room \<^verbatim>\<open>setItem\<close> throws, \<open>saveNotes\<close> ignores
  it, and \<open>loadNotes\<close> finds what was there before, here nothing.
\<close>

theorem save_fails_counterexample:
  "loadNotes (saveNotes \<lparr>items = [], quota = 0, denied = False\<rparr> [groceries])
     \<noteq> map note_to_js [groceries]"
proof -
  have "saveNotes \<lparr>items = [], quota = 0, denied = False\<rparr> [groceries]
      = \<lparr>items = [], quota = 0, denied = False\<rparr>"
    by (simp add: saveNotes_def setItem_def STORAGE_KEY_def)
  moreover have "loadNotes \<lparr>items = [], quota = 0, denied = False\<rparr> = []"
    by (simp add: loadNotes_def loadNotes_try_def getItem_def)
  ultimately show ?thesis
    by simp
qed

theorem save_then_load_witness:
  "loadNotes (saveNotes \<lparr>items = [], quota = 200, denied = False\<rparr> [groceries])
     = [note_to_js groceries] \<and>
   saveNotes \<lparr>items = [(STORAGE_KEY, JSON_stringify [meeting])], quota = 0, denied = False\<rparr>
       [groceries]
     = \<lparr>items = [(STORAGE_KEY, JSON_stringify [meeting])], quota = 0, denied = False\<rparr> \<and>
   loadNotes
     (saveNotes \<lparr>items = [(STORAGE_KEY, JSON_stringify [meeting])], quota = 0, denied = False\<rparr>
        [groceries])
     = [note_to_js meeting]"
proof -
  let ?full = "\<lparr>items = [(STORAGE_KEY, JSON_stringify [meeting])], quota = 0, denied = False\<rparr>"
  have ok: "\<not> denied \<lparr>items = [], quota = 200, denied = False\<rparr> \<and>
     length STORAGE_KEY + length (JSON_stringify [groceries])
       \<le> quota \<lparr>items = [], quota = 200, denied = False\<rparr>"
    by code_simp
  have no: "denied ?full \<or> quota ?full < length STORAGE_KEY + length (JSON_stringify [groceries])"
    by (simp add: STORAGE_KEY_def)
  have before: "loadNotes ?full = [note_to_js meeting]"
    by (simp add: loadNotes_def loadNotes_try_def getItem_def JSON_stringify_nonempty
        JSON_parse_stringify)
  from save_then_load [of "\<lparr>items = [], quota = 200, denied = False\<rparr>" "[groceries]"] ok
  have "loadNotes (saveNotes \<lparr>items = [], quota = 200, denied = False\<rparr> [groceries])
     = [note_to_js groceries]"
    by simp
  moreover from save_then_load [of ?full "[groceries]"] no before
  have "saveNotes ?full [groceries] = ?full \<and> loadNotes (saveNotes ?full [groceries]) = [note_to_js meeting]"
    by simp
  ultimately show ?thesis
    using before by simp
qed

text \<open>
  C4. With a search string that is empty after trimming, the query returns exactly the
  notes of the collection (nothing is filtered out), sorted by \<open>updatedAt\<close> descending,
  notes with the same \<open>updatedAt\<close> in their order in the collection.
\<close>

theorem query_blank_sorted:
  "trim s = [] \<Longrightarrow>
   mset (filteredNotes X s) = mset X \<and>
   sorted_wrt (\<lambda>a b. updatedAt b \<le> updatedAt a) (filteredNotes X s) \<and>
   (\<forall>t. filter (\<lambda>n. updatedAt n = t) (filteredNotes X s) = filter (\<lambda>n. updatedAt n = t) X)"
proof -
  assume "trim s = []"
  then have eq: "filteredNotes X s = sort_key (\<lambda>n. - updatedAt n) X"
    by (rule filteredNotes_blank)
  have "sorted (map (\<lambda>n. - updatedAt n) (sort_key (\<lambda>n. - updatedAt n) X))"
    by simp
  then have "sorted_wrt (\<lambda>a b. updatedAt b \<le> updatedAt a) (sort_key (\<lambda>n. - updatedAt n) X)"
    by (simp add: sorted_map del: sorted_sort_key)
  moreover have "filter (\<lambda>n. updatedAt n = t) (sort_key (\<lambda>n. - updatedAt n) X)
      = filter (\<lambda>n. updatedAt n = t) X" for t
    using sort_key_stable [of "\<lambda>n. - updatedAt n" "- t" X] by simp
  ultimately show ?thesis
    using eq by simp
qed

theorem query_blank_witness:
  "trim ''  '' = [] \<and>
   mset (filteredNotes [groceries, meeting] ''  '') = mset [groceries, meeting] \<and>
   filteredNotes [groceries, meeting] ''  '' = [meeting, groceries] \<and> filteredNotes [groceries, meeting] [] = [meeting, groceries]"
proof -
  have h: "trim ''  '' = []"
    by code_simp
  have "filteredNotes [groceries, meeting] ''  '' = [meeting, groceries]" "filteredNotes [groceries, meeting] [] = [meeting, groceries]"
    by code_simp+
  with query_blank_sorted [OF h, of "[groceries, meeting]"] h show ?thesis
    by simp
qed




text \<open>
  C6. Querying the result of a blank query gives what querying the collection gives, for
  every search string.
\<close>

theorem query_after_blank_query: "filteredNotes (filteredNotes X []) s = filteredNotes X s"
proof -
  have "sort_key (\<lambda>n. - updatedAt n) (sort_key (\<lambda>n. - updatedAt n) X)
      = sort_key (\<lambda>n. - updatedAt n) X"
    by (rule sort_key_id_if_sorted) simp
  then show ?thesis
    by (simp add: filteredNotes_def Let_def sort_by_newest_first trim_Nil toLowerCase_def)
qed

text \<open>
  C7 (amended). Create allocates a note with empty title and content, the current timestamp
  and the id that \<open>generateId\<close> makes of the clock and a random suffix (compared with no
  id of the collection), prepends it to the collection and selects it; on an empty
  collection the result holds exactly that note.
\<close>

theorem create_prepends_and_selects:
  "notes (handleNew t1 r36 t2 st) =
     \<lparr>note_id = generateId t1 r36, title = [], content = [], updatedAt = t2\<rparr> # notes st \<and>
   selectedId (handleNew t1 r36 t2 st) = Some (generateId t1 r36) \<and>
   query (handleNew t1 r36 t2 st) = query st \<and>
   (notes st = [] \<longrightarrow>
      notes (handleNew t1 r36 t2 st) =
        [\<lparr>note_id = generateId t1 r36, title = [], content = [], updatedAt = t2\<rparr>])"
  by (simp add: handleNew_def)

theorem create_witness:
  "notes empty_app = [] \<and>
   notes (handleNew 1700000000000 ''0.4fzyo82mvyr'' 1700000000001 empty_app) =
     [\<lparr>note_id = ''1700000000000-4fzyo8'', title = [], content = [],
        updatedAt = 1700000000001\<rparr>] \<and>
   selectedId (handleNew 1700000000000 ''0.4fzyo82mvyr'' 1700000000001 empty_app) =
     Some ''1700000000000-4fzyo8''"
proof -
  have e: "notes empty_app = []"
    by (simp add: empty_app_def)
  from create_prepends_and_selects [of 1700000000000 "''0.4fzyo82mvyr''" 1700000000001 empty_app] e
  show ?thesis
    by (simp add: generateId_examples)
qed

text \<open>
  C7 as stated fails: the id is not fresh when the collection already holds the generated
  id; the new note and the old one then share it.
\<close>

theorem create_id_not_fresh_counterexample:
  "map note_id (notes (handleNew 1700000000000 ''0.4fzyo8k1xq3'' 1700000000000
      \<lparr>notes = [\<lparr>note_id = ''1700000000000-4fzyo8'', title = ''first'', content = [],
                  updatedAt = 1700000000000\<rparr>],
       selectedId = None, query = []\<rparr>))
   = [''1700000000000-4fzyo8'', ''1700000000000-4fzyo8'']"
  by (simp add: handleNew_def generateId_examples)

text \<open>
  C8. Update with a note \<open>u\<close> keeps the length of the collection, puts \<open>u\<close> at every
  position whose entry has the id of \<open>u\<close>, leaves every other position as it was, and
  leaves the whole state unchanged when no entry has that id.
\<close>

theorem update_replaces_matching:
  "length (notes (handleChange u st)) = length (notes st) \<and>
   (\<forall>i < length (notes st).
      notes (handleChange u st) ! i =
        (if note_id (notes st ! i) = note_id u then u else notes st ! i)) \<and>
   (note_id u \<notin> set (map note_id (notes st)) \<longrightarrow> handleChange u st = st) \<and>
   selectedId (handleChange u st) = selectedId st \<and>
   query (handleChange u st) = query st"
proof -
  have "map (\<lambda>n. if note_id n = note_id u then u else n) xs = xs"
    if "note_id u \<notin> set (map note_id xs)" for xs
    using that by (induction xs) auto
  then show ?thesis
    by (simp add: handleChange_def)
qed

theorem update_witness:
  "handleChange (meeting\<lparr>title := ''Minutes'', updatedAt := 300\<rparr>)
     \<lparr>notes = [groceries, meeting], selectedId = Some ''b'', query = []\<rparr>
   = \<lparr>notes = [groceries, meeting\<lparr>title := ''Minutes'', updatedAt := 300\<rparr>], selectedId = Some ''b'', query = []\<rparr> \<and>
   handleChange (meeting\<lparr>title := ''Minutes''\<rparr>) \<lparr>notes = [groceries], selectedId = None, query = []\<rparr>
   = \<lparr>notes = [groceries], selectedId = None, query = []\<rparr>"
proof -
  have n: "note_id (meeting\<lparr>title := ''Minutes''\<rparr>)
      \<notin> set (map note_id (notes \<lparr>notes = [groceries], selectedId = None, query = []\<rparr>))"
    by code_simp
  have "handleChange (meeting\<lparr>title := ''Minutes'', updatedAt := 300\<rparr>)
     \<lparr>notes = [groceries, meeting], selectedId = Some ''b'', query = []\<rparr>
   = \<lparr>notes = [groceries, meeting\<lparr>title := ''Minutes'', updatedAt := 300\<rparr>], selectedId = Some ''b'', query = []\<rparr>"
    by code_simp
  with update_replaces_matching [of "meeting\<lparr>title := ''Minutes''\<rparr>" "\<lparr>notes = [groceries], selectedId = None, query = []\<rparr>"] n
  show ?thesis
    by blast
qed

text \<open>
  C9 (amended). For a non-empty id, Delete yields exactly the notes whose id differs from
  it: an id that is not in the collection leaves the collection unchanged, and when every
  note of the collection has the id (the only note is deleted) the collection is empty and
  nothing is selected. With no selection, or the empty string selected, Delete changes
  nothing.
\<close>

theorem delete_removes_matching:
  "i \<noteq> [] \<Longrightarrow>
   notes (Delete_id i st) = filter (\<lambda>n. note_id n \<noteq> i) (notes st) \<and>
   (i \<notin> set (ids st) \<longrightarrow> notes (Delete_id i st) = notes st) \<and>
   ((\<forall>n \<in> set (notes st). note_id n = i) \<longrightarrow>
      notes (Delete_id i st) = [] \<and> selectedId (Delete_id i st) = None) \<and>
   (selectedId st = None \<or> selectedId st = Some [] \<longrightarrow> handleDelete st = st)"
proof -
  assume i: "i \<noteq> []"
  have keep: "filter (\<lambda>n. note_id n \<noteq> i) xs = xs" if "i \<notin> set (map note_id xs)" for xs
    using that by (induction xs) auto
  have gone: "filter (\<lambda>n. note_id n \<noteq> i) xs = []" if "\<forall>n \<in> set xs. note_id n = i" for xs
    using that by (induction xs) auto
  have n: "notes (Delete_id i st) = filter (\<lambda>n. note_id n \<noteq> i) (notes st)"
    using i by (simp add: Delete_id_def handleDelete_def handleSelect_def Let_def)
  have "selectedId (Delete_id i st) = None" if a: "\<forall>n \<in> set (notes st). note_id n = i"
  proof -
    from a set_filteredNotes have "\<forall>n \<in> set (filteredNotes (notes st) (query st)). note_id n = i"
      by blast
    then have "filter (\<lambda>n. note_id n \<noteq> i) (filteredNotes (notes st) (query st)) = []"
      by (rule gone)
    then show ?thesis
      using i by (simp add: Delete_id_def handleDelete_def handleSelect_def Let_def)
  qed
  moreover have "notes (Delete_id i st) = notes st" if "i \<notin> set (ids st)"
    using n keep [of "notes st"] that by (simp add: ids_def)
  moreover have "notes (Delete_id i st) = []" if "\<forall>n \<in> set (notes st). note_id n = i"
    using n gone [OF that] by simp
  moreover have "handleDelete st = st" if "selectedId st = None \<or> selectedId st = Some []"
    using that by (auto simp: handleDelete_def)
  ultimately show ?thesis
    using n by blast
qed

text \<open>
  C9 as stated fails for the empty id: \<^verbatim>\<open>!selectedId\<close> is true of the empty string, so
  a note whose id is empty is never removed.
\<close>

theorem delete_empty_id_counterexample:
  "note_id \<lparr>note_id = [], title = ''x'', content = [], updatedAt = 0\<rparr> = [] \<and>
   notes (Delete_id []
     \<lparr>notes = [\<lparr>note_id = [], title = ''x'', content = [], updatedAt = 0\<rparr>],
      selectedId = Some [], query = []\<rparr>)
   = [\<lparr>note_id = [], title = ''x'', content = [], updatedAt = 0\<rparr>]"
  by code_simp

theorem delete_witness:
  "''b'' \<noteq> [] \<and>
   notes (Delete_id ''b'' \<lparr>notes = [meeting], selectedId = None, query = []\<rparr>) = [] \<and>
   selectedId (Delete_id ''b'' \<lparr>notes = [meeting], selectedId = None, query = []\<rparr>) = None \<and>
   notes (Delete_id ''zz'' \<lparr>notes = [groceries, meeting], selectedId = Some ''a'', query = []\<rparr>) = [groceries, meeting]"
proof -
  have h: "''b'' \<noteq> []" "''zz'' \<noteq> []"
    by simp_all
  have 1: "\<forall>n \<in> set (notes \<lparr>notes = [meeting], selectedId = None, query = []\<rparr>). note_id n = ''b''"
    by (simp add: meeting_def)
  have 2: "''zz'' \<notin> set (ids \<lparr>notes = [groceries, meeting], selectedId = Some ''a'', query = []\<rparr>)"
    by (simp add: ids_def groceries_def meeting_def)
  from delete_removes_matching [OF h(1), of "\<lparr>notes = [meeting], selectedId = None, query = []\<rparr>"] 1
  have "notes (Delete_id ''b'' \<lparr>notes = [meeting], selectedId = None, query = []\<rparr>) = [] \<and>
   selectedId (Delete_id ''b'' \<lparr>notes = [meeting], selectedId = None, query = []\<rparr>) = None"
    by blast
  moreover from delete_removes_matching [OF h(2), of "\<lparr>notes = [groceries, meeting], selectedId = Some ''a'', query = []\<rparr>"] 2
  have "notes (Delete_id ''zz'' \<lparr>notes = [groceries, meeting], selectedId = Some ''a'', query = []\<rparr>)
      = notes \<lparr>notes = [groceries, meeting], selectedId = Some ''a'', query = []\<rparr>"
    by blast
  ultimately show ?thesis
    by simp
qed

text \<open>
  C10. In every state that the App reaches from its first render by selecting a listed
  note, creating, deleting, editing the selected note and changing the search text, the
  selection is null or the id of a note of the collection; and Delete with no selection
  changes neither the collection nor the selection.
\<close>

theorem selection_stays_valid:
  "reachable st \<Longrightarrow>
   selection_valid st \<and> (selectedId st = None \<longrightarrow> handleDelete st = st)"
proof -
  assume "reachable st"
  then have "selection_valid st"
  proof (induction rule: reachable.induct)
    case (initial ls ns)
    then show ?case
      by (cases ns) (simp_all add: App_init_def selection_valid_iff ids_def)
  next
    case (select st n)
    with set_filteredNotes [of "notes st" "query st"] show ?case
      by (auto simp: selection_valid_iff handleSelect_def ids_def)
  next
    case (create st t1 r36 t2)
    then show ?case
      by (simp add: selection_valid_iff ids_def handleNew_def)
  next
    case (delete st)
    from delete.IH show ?case
      by (rule selection_valid_handleDelete)
  next
    case (edit_title st v now)
    then show ?case
      by (simp add: handleTitle_def selection_valid_handleChange split: option.splits)
  next
    case (edit_content st v now)
    then show ?case
      by (simp add: handleContent_def selection_valid_handleChange split: option.splits)
  next
    case (search st q)
    then show ?case
      by (simp add: selection_valid_iff setQuery_def ids_def)
  qed
  moreover have "selectedId st = None \<longrightarrow> handleDelete st = st"
    by (simp add: handleDelete_def)
  ultimately show ?thesis
    by simp
qed

theorem selection_witness:
  "reachable (handleDelete (handleNew 1700000000321 ''0.k3j9x2m7pqa'' 1700000000321
      (handleNew 1700000000000 ''0.4fzyo82mvyr'' 1700000000001 (App_init [])))) \<and>
   selection_valid (handleDelete (handleNew 1700000000321 ''0.k3j9x2m7pqa'' 1700000000321
      (handleNew 1700000000000 ''0.4fzyo82mvyr'' 1700000000001 (App_init [])))) \<and>
   selectedId (handleDelete (handleNew 1700000000321 ''0.k3j9x2m7pqa'' 1700000000321
      (handleNew 1700000000000 ''0.4fzyo82mvyr'' 1700000000001 (App_init []))))
     = Some ''1700000000000-4fzyo8''"
proof -
  have "loadNotes \<lparr>items = [], quota = 0, denied = False\<rparr> = map note_to_js []"
    by (simp add: loadNotes_def loadNotes_try_def getItem_def)
  then have "reachable (App_init [])"
    by (rule reachable.initial)
  then have r: "reachable (handleDelete (handleNew 1700000000321 ''0.k3j9x2m7pqa'' 1700000000321
      (handleNew 1700000000000 ''0.4fzyo82mvyr'' 1700000000001 (App_init []))))"
    by (intro reachable.delete reachable.create)
  have "selectedId (handleDelete (handleNew 1700000000321 ''0.k3j9x2m7pqa'' 1700000000321
      (handleNew 1700000000000 ''0.4fzyo82mvyr'' 1700000000001 (App_init []))))
     = Some ''1700000000000-4fzyo8''"
    by (simp add: handleDelete_def handleNew_def App_init_def generateId_examples
        filteredNotes_blank trim_Nil)
  with selection_stays_valid [OF r] r show ?thesis
    by simp
qed

end
